theory Spec2Isabelle
  imports
    Complex_Main
    "HOL-Library.AList"
    "HOL-Library.Multiset"
    "HOL-Library.Char_ord"
    "HOL-Library.List_Lexorder"
begin

section \<open>JavaScript values\<close>

text \<open>
  The functions of \<^verbatim>\<open>src/index.ts\<close> take values of type \<^verbatim>\<open>any\<close>. A value is a
  primitive or an object. Of an object the functions observe three things only: whether
  it is callable (\<^verbatim>\<open>typeof\<close>), which constructors have their prototype on its prototype
  chain (\<^verbatim>\<open>instanceof\<close>), and the tag that \<^verbatim>\<open>Object.prototype.toString\<close> prints between
  \<^verbatim>\<open>[object\<close> and \<^verbatim>\<open>]\<close> (the built-in tag of the object, or its \<^verbatim>\<open>Symbol.toStringTag\<close>).
  An object carries these, and a list of the values it holds (the elements of an array,
  the primitive inside a wrapper object), which no function here looks at.

  A finite number is a rational (every finite double is one); the three special doubles
  are constructors of their own. Strings are lists of 8-bit characters, so the model
  covers strings of characters below 256, compared by character code as JavaScript
  compares code units.
\<close>

datatype jsnumber = Finite rat | NaN | PosInfinity | NegInfinity

datatype jsvalue =
    VUndefined
  | VNull
  | VBoolean bool
  | VNumber jsnumber
  | VBigInt int
  | VString string
  | VSymbol string
  | VFunction
  | VObject "string list" string "jsvalue list"

subsection \<open>The operations of the language that the source calls\<close>

text \<open>\<^verbatim>\<open>typeof value\<close>.\<close>

fun typeof :: "jsvalue \<Rightarrow> string" where
  "typeof VUndefined = ''undefined''"
| "typeof VNull = ''object''"
| "typeof (VBoolean b) = ''boolean''"
| "typeof (VNumber n) = ''number''"
| "typeof (VBigInt i) = ''bigint''"
| "typeof (VString s) = ''string''"
| "typeof (VSymbol d) = ''symbol''"
| "typeof VFunction = ''function''"
| "typeof (VObject protos tag held) = ''object''"

text \<open>
  \<^verbatim>\<open>value instanceof C\<close>, for a built-in constructor \<^verbatim>\<open>C\<close> named by a string: false on
  every primitive, on an object whether the prototype of \<^verbatim>\<open>C\<close> is on the chain.
\<close>

fun instanceof :: "jsvalue \<Rightarrow> string \<Rightarrow> bool" where
  "instanceof (VObject protos tag held) C = (C \<in> set protos)"
| "instanceof VFunction C = (C \<in> set [''Function'', ''Object''])"
| "instanceof v C = False"

text \<open>\<^verbatim>\<open>Object.prototype.toString.call(value)\<close>.\<close>

fun Object_prototype_toString :: "jsvalue \<Rightarrow> string" where
  "Object_prototype_toString VUndefined = ''[object Undefined]''"
| "Object_prototype_toString VNull = ''[object Null]''"
| "Object_prototype_toString (VBoolean b) = ''[object Boolean]''"
| "Object_prototype_toString (VNumber n) = ''[object Number]''"
| "Object_prototype_toString (VBigInt i) = ''[object BigInt]''"
| "Object_prototype_toString (VString s) = ''[object String]''"
| "Object_prototype_toString (VSymbol d) = ''[object Symbol]''"
| "Object_prototype_toString VFunction = ''[object Function]''"
| "Object_prototype_toString (VObject protos tag held) = ''[object '' @ tag @ '']''"

text \<open>
  \<^verbatim>\<open>s.slice(start, stop)\<close>: a negative index counts from the end of the string, both
  indices are clamped to the string, and an empty range gives the empty string.
\<close>

definition slice :: "string \<Rightarrow> int \<Rightarrow> int \<Rightarrow> string" where
  "slice s start stop =
     (let len = int (length s);
          from = (if start < 0 then max (len + start) 0 else min start len);
          to = (if stop < 0 then max (len + stop) 0 else min stop len)
      in take (nat (to - from)) (drop (nat from) s))"

text \<open>\<^verbatim>\<open>s.toLowerCase()\<close>, on the letters A to Z.\<close>

definition lower_char :: "char \<Rightarrow> char" where
  "lower_char c =
     (let n = (of_char c :: nat) in if 65 \<le> n \<and> n \<le> 90 then char_of (n + 32) else c)"

definition toLowerCase :: "string \<Rightarrow> string" where
  "toLowerCase s = map lower_char s"

text \<open>
  The number that a value of \<^verbatim>\<open>typeof\<close> number is. The source applies \<^verbatim>\<open>isNaN\<close> and
  \<^verbatim>\<open>Math.abs\<close> only under \<^verbatim>\<open>typeof value === 'number'\<close>, where the conversion to a number
  that both perform is the identity.
\<close>

fun the_number :: "jsvalue \<Rightarrow> jsnumber" where
  "the_number (VNumber n) = n"
| "the_number v = NaN"

fun isNaN :: "jsnumber \<Rightarrow> bool" where
  "isNaN NaN = True"
| "isNaN n = False"

fun Math_abs :: "jsnumber \<Rightarrow> jsnumber" where
  "Math_abs (Finite q) = Finite \<bar>q\<bar>"
| "Math_abs NaN = NaN"
| "Math_abs PosInfinity = PosInfinity"
| "Math_abs NegInfinity = PosInfinity"

text \<open>\<^verbatim>\<open>a === b\<close> on two numbers: \<^verbatim>\<open>NaN\<close> equals nothing, itself included.\<close>

definition strict_equals_number :: "jsnumber \<Rightarrow> jsnumber \<Rightarrow> bool" where
  "strict_equals_number a b = (\<not> isNaN a \<and> \<not> isNaN b \<and> a = b)"

text \<open>
  \<^verbatim>\<open>a < b\<close> on two strings: the strings are compared unit by unit, the first difference
  decides, and a proper prefix is smaller.
\<close>

fun string_less :: "string \<Rightarrow> string \<Rightarrow> bool" where
  "string_less [] [] = False"
| "string_less [] (y # ys) = True"
| "string_less (x # xs) [] = False"
| "string_less (x # xs) (y # ys) =
     (if x = y then string_less xs ys else (of_char x :: nat) < of_char y)"

text \<open>
  \<^verbatim>\<open>new Set(iterable)\<close> and \<^verbatim>\<open>.size\<close>: a set keeps its members in insertion order, and
  adding a member it has changes nothing.
\<close>

definition Set_add :: "'a list \<Rightarrow> 'a \<Rightarrow> 'a list" where
  "Set_add s x = (if x \<in> set s then s else s @ [x])"

definition new_Set :: "'a list \<Rightarrow> 'a list" where
  "new_Set xs = foldl Set_add [] xs"

definition Set_size :: "'a list \<Rightarrow> nat" where
  "Set_size s = length s"

text \<open>
  \<^verbatim>\<open>new Map()\<close>, \<^verbatim>\<open>map.get(k)\<close>, \<^verbatim>\<open>map.set(k, v)\<close> and \<^verbatim>\<open>[...map]\<close>: a map keeps its
  entries in insertion order; setting a key it has replaces the value in place, setting
  a new key appends the entry; spreading gives the entries in that order.
\<close>

definition Map_get :: "('k \<times> 'v) list \<Rightarrow> 'k \<Rightarrow> 'v option" where
  "Map_get m k = map_of m k"

definition Map_set :: "('k \<times> 'v) list \<Rightarrow> 'k \<Rightarrow> 'v \<Rightarrow> ('k \<times> 'v) list" where
  "Map_set m k v = AList.update k v m"

text \<open>\<^verbatim>\<open>x || 0\<close> on the result of \<^verbatim>\<open>map.get\<close>: \<^verbatim>\<open>undefined\<close> and \<^verbatim>\<open>0\<close> are falsy.\<close>

fun or_zero :: "nat option \<Rightarrow> nat" where
  "or_zero None = 0"
| "or_zero (Some c) = (if c = 0 then 0 else c)"

text \<open>
  \<^verbatim>\<open>array.sort(compare)\<close>: the language promises a stable sort and leaves the algorithm
  open; insertion from the right is one. \<^verbatim>\<open>compare a b \<le> 0\<close> keeps \<^verbatim>\<open>a\<close> before \<^verbatim>\<open>b\<close>.
\<close>

fun sort_insert :: "('a \<Rightarrow> 'a \<Rightarrow> int) \<Rightarrow> 'a \<Rightarrow> 'a list \<Rightarrow> 'a list" where
  "sort_insert cmp a [] = [a]"
| "sort_insert cmp a (b # bs) =
     (if cmp a b \<le> 0 then a # b # bs else b # sort_insert cmp a bs)"

definition Array_sort :: "('a \<Rightarrow> 'a \<Rightarrow> int) \<Rightarrow> 'a list \<Rightarrow> 'a list" where
  "Array_sort cmp xs = foldr (sort_insert cmp) xs []"

section \<open>The functions of the source\<close>

text \<open>
  An array of the source (\<^verbatim>\<open>any[]\<close>) is the list of its elements: the arrays of the
  claims are finite sequences of values, without holes. \<^verbatim>\<open>arr.map\<close> is \<open>map\<close>,
  \<^verbatim>\<open>arr.length\<close> is \<open>length\<close>, and \<^verbatim>\<open>arr.forEach\<close> with a callback that updates a local
  map is \<open>foldl\<close> over the map.

  \<^verbatim>\<open>getType\<close> (lines 35 to 38) returns \<^verbatim>\<open>typeof value\<close>.
\<close>

definition getType :: "jsvalue \<Rightarrow> string" where
  "getType value = typeof value"

definition getTypesOfItems :: "jsvalue list \<Rightarrow> string list" where
  "getTypesOfItems arr = map (\<lambda>item. getType item) arr"

text \<open>
  \<^verbatim>\<open>allItemsHaveTheSameType\<close> (lines 45 to 48):
  \<^verbatim>\<open>return new Set(arr.map((item) => getType(item))).size == 1;\<close>
\<close>

definition allItemsHaveTheSameType :: "jsvalue list \<Rightarrow> bool" where
  "allItemsHaveTheSameType arr =
     (Set_size (new_Set (map (\<lambda>item. getType item) arr)) = 1)"

text \<open>
  \<^verbatim>\<open>getRealType\<close> (lines 50 to 100): the chain of tests on \<^verbatim>\<open>typeof value\<close>, then, in
  the last branch, the chain of \<^verbatim>\<open>instanceof\<close> tests in the order of the source (the
  test for \<^verbatim>\<open>Date\<close> is written twice there), and at the end
  \<^verbatim>\<open>Object.prototype.toString.call(value).slice(8, -1).toLowerCase()\<close>.
\<close>

definition getRealType :: "jsvalue \<Rightarrow> string" where
  "getRealType value =
     (let typeOfValue = typeof value in
      if typeOfValue = ''number'' then
        (if isNaN (the_number value) then ''NaN''
         else if strict_equals_number (Math_abs (the_number value)) PosInfinity
           then ''Infinity''
         else ''number'')
      else if typeOfValue = ''string'' then ''string''
      else if typeOfValue = ''boolean'' then ''boolean''
      else if typeOfValue = ''undefined'' then ''undefined''
      else if typeOfValue = ''symbol'' then ''symbol''
      else if typeOfValue = ''function'' then ''function''
      else
        (if instanceof value ''Array'' then ''array''
         else if instanceof value ''Number'' then ''number''
         else if instanceof value ''Date'' then ''date''
         else if instanceof value ''Set'' then ''set''
         else if instanceof value ''Map'' then ''map''
         else if instanceof value ''WeakMap'' then ''weakmap''
         else if instanceof value ''WeakSet'' then ''weakset''
         else if instanceof value ''RegExp'' then ''regexp''
         else if instanceof value ''Error'' then ''error''
         else if instanceof value ''Date'' then ''date''
         else toLowerCase (slice (Object_prototype_toString value) 8 (- 1))))"

definition getRealTypesOfItems :: "jsvalue list \<Rightarrow> string list" where
  "getRealTypesOfItems arr = map (\<lambda>item. getRealType item) arr"

text \<open>
  \<^verbatim>\<open>everyItemHasAUniqueRealType\<close> (lines 107 to 111):
  \<^verbatim>\<open>return new Set(arr.map((item) => getRealType(item))).size === arr.length;\<close>
\<close>

definition everyItemHasAUniqueRealType :: "jsvalue list \<Rightarrow> bool" where
  "everyItemHasAUniqueRealType arr =
     (Set_size (new_Set (map (\<lambda>item. getRealType item) arr)) = length arr)"

text \<open>
  \<^verbatim>\<open>compareFn\<close> (lines 113 to 122) compares the first components \<^verbatim>\<open>a[0]\<close> and \<^verbatim>\<open>b[0]\<close>
  of two entries, which \<^verbatim>\<open>countRealTypes\<close> makes the tags, with \<^verbatim>\<open><\<close> and \<^verbatim>\<open>>\<close>.
\<close>

definition compareFn :: "string \<times> nat \<Rightarrow> string \<times> nat \<Rightarrow> int" where
  "compareFn a b =
     (if string_less (fst a) (fst b) then - 1
      else if string_less (fst b) (fst a) then 1
      else 0)"

text \<open>The body of the \<^verbatim>\<open>forEach\<close> callback of \<^verbatim>\<open>countRealTypes\<close>, on the map so far.\<close>

definition count_element :: "(string \<times> nat) list \<Rightarrow> jsvalue \<Rightarrow> (string \<times> nat) list" where
  "count_element m element =
     (let realTypeOfValue = getRealType element;
          realTypeExist = Map_get m realTypeOfValue
      in Map_set m realTypeOfValue (or_zero realTypeExist + 1))"

text \<open>
  \<^verbatim>\<open>countRealTypes\<close> (lines 125 to 136) runs the callback over the array from an empty
  map and returns \<^verbatim>\<open>[...map].sort(compareFn)\<close>.
\<close>

definition countRealTypes :: "jsvalue list \<Rightarrow> (string \<times> nat) list" where
  "countRealTypes arr = Array_sort compareFn (foldl count_element [] arr)"

subsection \<open>The values of the source's tests\<close>

text \<open>
  Objects as the language builds them: the constructors on the prototype chain, the tag
  of \<^verbatim>\<open>Object.prototype.toString\<close>, the values held.
\<close>

definition array_literal :: "jsvalue list \<Rightarrow> jsvalue" where
  "array_literal elements = VObject [''Array'', ''Object''] ''Array'' elements"

definition object_literal :: jsvalue where
  "object_literal = VObject [''Object''] ''Object'' []"

definition new_Number :: "jsnumber \<Rightarrow> jsvalue" where
  "new_Number n = VObject [''Number'', ''Object''] ''Number'' [VNumber n]"

definition new_String :: "string \<Rightarrow> jsvalue" where
  "new_String s = VObject [''String'', ''Object''] ''String'' [VString s]"

definition new_Boolean :: "bool \<Rightarrow> jsvalue" where
  "new_Boolean b = VObject [''Boolean'', ''Object''] ''Boolean'' [VBoolean b]"

text \<open>
  \<^verbatim>\<open>new Int8Array([1, 2, 3])\<close> and its siblings: the prototype chain is that of the
  view, of \<^verbatim>\<open>%TypedArray%\<close> and of \<^verbatim>\<open>Object\<close> (never of \<^verbatim>\<open>Array\<close>), and the tag is
  the name of the view.
\<close>

definition new_TypedArray :: "string \<Rightarrow> jsvalue list \<Rightarrow> jsvalue" where
  "new_TypedArray name elements = VObject [name, ''TypedArray'', ''Object''] name elements"

definition typed_array_names :: "string list" where
  "typed_array_names =
     [''Int8Array'', ''Uint8Array'', ''Int16Array'', ''Uint16Array'', ''Int32Array'',
      ''Uint32Array'', ''Uint8ClampedArray'']"

text \<open>\<^verbatim>\<open>!value\<close> on the values the tests negate: \<^verbatim>\<open>null\<close> is falsy, a boolean is itself.\<close>

fun ToBoolean :: "jsvalue \<Rightarrow> bool" where
  "ToBoolean VUndefined = False"
| "ToBoolean VNull = False"
| "ToBoolean (VBoolean b) = b"
| "ToBoolean (VNumber n) = (\<not> isNaN n \<and> n \<noteq> Finite 0)"
| "ToBoolean (VBigInt i) = (i \<noteq> 0)"
| "ToBoolean (VString s) = (s \<noteq> [])"
| "ToBoolean (VSymbol d) = True"
| "ToBoolean VFunction = True"
| "ToBoolean (VObject protos tag held) = True"

definition logical_not :: "jsvalue \<Rightarrow> jsvalue" where
  "logical_not v = VBoolean (\<not> ToBoolean v)"

text \<open>
  The input of the two \<^verbatim>\<open>countRealTypes\<close> tests,
  \<^verbatim>\<open>[true, null, !null, !!null, {}]\<close> and \<^verbatim>\<open>[{}, null, true, !null, !!null]\<close>, and the
  result both expect.
\<close>

definition count_fixture :: "jsvalue list" where
  "count_fixture =
     [VBoolean True, VNull, logical_not VNull, logical_not (logical_not VNull), object_literal]"

definition count_fixture_reordered :: "jsvalue list" where
  "count_fixture_reordered =
     [object_literal, VNull, VBoolean True, logical_not VNull, logical_not (logical_not VNull)]"

definition count_expected :: "(string \<times> nat) list" where
  "count_expected = [(''boolean'', 3), (''null'', 1), (''object'', 1)]"

section \<open>Properties of the language operations\<close>

subsection \<open>Sets: the size is the number of distinct members\<close>

lemma set_foldl_Set_add: "set (foldl Set_add acc xs) = set acc \<union> set xs"
  by (induction xs arbitrary: acc) (auto simp: Set_add_def)

lemma distinct_foldl_Set_add: "distinct acc \<Longrightarrow> distinct (foldl Set_add acc xs)"
  by (induction xs arbitrary: acc) (auto simp: Set_add_def)

lemma Set_size_new_Set: "Set_size (new_Set xs) = card (set xs)"
proof -
  have "distinct (new_Set xs)"
    unfolding new_Set_def by (rule distinct_foldl_Set_add) simp
  moreover have "set (new_Set xs) = set xs"
    unfolding new_Set_def by (simp add: set_foldl_Set_add)
  ultimately show ?thesis
    unfolding Set_size_def by (metis distinct_card)
qed

subsection \<open>Strings: the comparison of the source is the lexicographic order\<close>

lemma string_less_iff: "string_less a b \<longleftrightarrow> a < b"
  by (induction a b rule: string_less.induct) (auto simp: less_char_def)

lemma compareFn_le_0: "compareFn a b \<le> 0 \<longleftrightarrow> fst a \<le> fst b"
  by (auto simp: compareFn_def string_less_iff)

lemma slice_toString: "slice (''[object '' @ tag @ '']'') 8 (- 1) = tag"
  by (simp add: slice_def)

subsection \<open>Sorting: a permutation, ascending in the keys\<close>

lemma mset_sort_insert: "mset (sort_insert cmp a bs) = add_mset a (mset bs)"
  by (induction bs) auto

lemma mset_Array_sort: "mset (Array_sort cmp xs) = mset xs"
  unfolding Array_sort_def by (induction xs) (auto simp: mset_sort_insert)

lemma set_sort_insert: "set (sort_insert cmp a bs) = insert a (set bs)"
  by (induction bs) auto

lemma sorted_sort_insert:
  "sorted (map fst bs) \<Longrightarrow> sorted (map fst (sort_insert compareFn a bs))"
  by (induction bs) (auto simp: compareFn_le_0 set_sort_insert)

lemma sorted_Array_sort: "sorted (map fst (Array_sort compareFn xs))"
  unfolding Array_sort_def by (induction xs) (auto intro: sorted_sort_insert)

subsection \<open>The map that \<^verbatim>\<open>countRealTypes\<close> accumulates\<close>

lemma or_zero_the: "or_zero e = (case e of None \<Rightarrow> 0 | Some c \<Rightarrow> c)"
  by (cases e) auto

lemma count_element_eq:
  "count_element m x = AList.update (getRealType x) (or_zero (map_of m (getRealType x)) + 1) m"
  by (simp add: count_element_def Map_get_def Map_set_def Let_def)

lemma distinct_counted: "distinct (map fst (foldl count_element [] arr))"
  by (induction arr rule: rev_induct) (auto simp: count_element_eq distinct_update)

lemma map_of_counted:
  "map_of (foldl count_element [] arr) t =
     (if t \<in> getRealType ` set arr then Some (count_list (map getRealType arr) t) else None)"
proof (induction arr rule: rev_induct)
  case Nil
  then show ?case by simp
next
  case (snoc x arr)
  then show ?case
    by (auto simp: count_element_eq update_conv' or_zero_the)
qed

lemma sum_list_update:
  "sum_list (map snd (AList.update k v al)) + or_zero (map_of al k) = sum_list (map snd al) + v"
  by (induction al) (auto simp: or_zero_the)

lemma sum_list_counted: "sum_list (map snd (foldl count_element [] arr)) = length arr"
proof (induction arr rule: rev_induct)
  case Nil
  then show ?case by simp
next
  case (snoc x arr)
  let ?m = "foldl count_element [] arr"
  let ?t = "getRealType x"
  have "sum_list (map snd (count_element ?m x)) + or_zero (map_of ?m ?t)
          = sum_list (map snd ?m) + (or_zero (map_of ?m ?t) + 1)"
    unfolding count_element_eq by (rule sum_list_update)
  with snoc show ?case by simp
qed

lemma mset_countRealTypes: "mset (countRealTypes arr) = mset (foldl count_element [] arr)"
  by (simp add: countRealTypes_def mset_Array_sort)

lemma set_countRealTypes: "set (countRealTypes arr) = set (foldl count_element [] arr)"
  by (metis mset_countRealTypes set_mset_mset)

lemma distinct_countRealTypes: "distinct (map fst (countRealTypes arr))"
proof -
  have "mset (map fst (countRealTypes arr)) = mset (map fst (foldl count_element [] arr))"
    by (metis mset_countRealTypes mset_map)
  then show ?thesis
    using distinct_counted mset_eq_imp_distinct_iff by blast
qed

lemma map_of_countRealTypes:
  "map_of (countRealTypes arr) t =
     (if t \<in> getRealType ` set arr then Some (count_list (map getRealType arr) t) else None)"
proof -
  have "map_of (countRealTypes arr) = map_of (foldl count_element [] arr)"
    using distinct_countRealTypes distinct_counted set_countRealTypes
    by (simp add: map_of_inject_set)
  then show ?thesis by (simp add: map_of_counted)
qed

lemma sum_list_countRealTypes: "sum_list (map snd (countRealTypes arr)) = length arr"
proof -
  have "sum_list (map snd (countRealTypes arr)) = sum_mset (image_mset snd (mset (countRealTypes arr)))"
    by (simp flip: sum_mset_sum_list)
  also have "\<dots> = sum_list (map snd (foldl count_element [] arr))"
    by (simp add: mset_countRealTypes flip: sum_mset_sum_list)
  finally show ?thesis by (simp add: sum_list_counted)
qed

lemma strict_sorted_countRealTypes: "sorted_wrt (<) (map fst (countRealTypes arr))"
proof -
  have "sorted (map fst (countRealTypes arr))"
    by (simp add: countRealTypes_def sorted_Array_sort)
  then show ?thesis
    by (simp add: strict_sorted_iff distinct_countRealTypes)
qed

lemma keys_countRealTypes: "set (map fst (countRealTypes arr)) = getRealType ` set arr"
proof -
  have "set (map fst (countRealTypes arr)) = dom (map_of (countRealTypes arr))"
    by (simp add: dom_map_of_conv_image_fst)
  also have "\<dots> = getRealType ` set arr"
    by (auto simp: dom_def map_of_countRealTypes)
  finally show ?thesis .
qed

lemma alist_eqI:
  "map fst xs = map fst ys \<Longrightarrow> distinct (map fst xs) \<Longrightarrow> map_of xs = map_of ys \<Longrightarrow> xs = ys"
proof (induction xs arbitrary: ys)
  case Nil
  then show ?case by simp
next
  case (Cons x xs)
  then obtain y ys' where ys: "ys = y # ys'" by (cases ys) auto
  with Cons.prems have k: "fst x = fst y" and ks: "map fst xs = map fst ys'"
    by auto
  from Cons.prems(3) have "map_of (x # xs) (fst x) = map_of ys (fst x)" by (rule fun_cong)
  with ys k have v: "snd x = snd y" by simp
  have "map_of xs = map_of ys'"
  proof
    fix t
    show "map_of xs t = map_of ys' t"
    proof (cases "t = fst x")
      case True
      with Cons.prems(2) have "map_of xs t = None"
        by (simp add: map_of_eq_None_iff)
      moreover from True Cons.prems(2) ks have "map_of ys' t = None"
        by (simp add: map_of_eq_None_iff flip: set_map)
      ultimately show ?thesis by simp
    next
      case False
      from Cons.prems(3) have "map_of (x # xs) t = map_of ys t" by (rule fun_cong)
      with False ys k show ?thesis by simp
    qed
  qed
  with Cons.IH [OF ks] Cons.prems(2) have "xs = ys'" by simp
  with ys k v show ?case by (simp add: prod_eq_iff)
qed

lemma countRealTypes_mset:
  assumes "mset xs = mset ys"
  shows "countRealTypes xs = countRealTypes ys"
proof -
  from assms have s: "set xs = set ys" by (metis set_mset_mset)
  from assms have "mset (map getRealType xs) = mset (map getRealType ys)" by simp
  then have c: "count_list (map getRealType xs) t = count_list (map getRealType ys) t" for t
    by (metis count_mset)
  have m: "map_of (countRealTypes xs) = map_of (countRealTypes ys)"
    by (rule ext) (simp add: map_of_countRealTypes s c)
  have "set (map fst (countRealTypes ys)) = set (map fst (countRealTypes xs))"
    by (simp only: keys_countRealTypes s)
  then have "map fst (countRealTypes ys) = map fst (countRealTypes xs)"
    by (rule strict_sorted_equal [OF strict_sorted_countRealTypes strict_sorted_countRealTypes])
  then show ?thesis
    using m distinct_countRealTypes by (metis alist_eqI)
qed

lemma filter_key_length:
  "distinct (map fst al) \<Longrightarrow> k \<in> fst ` set al \<Longrightarrow> length (filter (\<lambda>e. fst e = k) al) = 1"
proof (induction al)
  case Nil
  then show ?case by simp
next
  case (Cons a al)
  show ?case
  proof (cases "fst a = k")
    case True
    from Cons.prems(1) have "fst a \<notin> fst ` set al" by simp
    with True have "\<forall>e \<in> set al. fst e \<noteq> k" by (metis image_eqI)
    then have "filter (\<lambda>e. fst e = k) al = []"
      by (simp add: filter_empty_conv)
    with True show ?thesis by simp
  next
    case False
    with Cons show ?thesis by auto
  qed
qed

lemma entry_countRealTypes:
  assumes "e \<in> set (countRealTypes arr)"
  shows "fst e \<in> getRealType ` set arr" and "snd e = count_list (map getRealType arr) (fst e)"
proof -
  from assms have "map_of (countRealTypes arr) (fst e) = Some (snd e)"
    using distinct_countRealTypes by simp
  then show "fst e \<in> getRealType ` set arr" and "snd e = count_list (map getRealType arr) (fst e)"
    by (simp_all add: map_of_countRealTypes split: if_splits)
qed

lemma countRealTypes_fixture: "countRealTypes count_fixture = count_expected"
  by code_simp

subsection \<open>The classifier, branch by branch\<close>

lemma typeof_number_iff: "typeof v = ''number'' \<longleftrightarrow> (\<exists>n. v = VNumber n)"
  by (cases v) auto

lemma getRealType_VNumber:
  "getRealType (VNumber n) =
     (if n = NaN then ''NaN''
      else if n = PosInfinity \<or> n = NegInfinity then ''Infinity''
      else ''number'')"
  by (cases n) (simp_all add: getRealType_def strict_equals_number_def)

lemma getRealType_VObject:
  "getRealType (VObject protos tag held) =
     (if ''Array'' \<in> set protos then ''array''
      else if ''Number'' \<in> set protos then ''number''
      else if ''Date'' \<in> set protos then ''date''
      else if ''Set'' \<in> set protos then ''set''
      else if ''Map'' \<in> set protos then ''map''
      else if ''WeakMap'' \<in> set protos then ''weakmap''
      else if ''WeakSet'' \<in> set protos then ''weakset''
      else if ''RegExp'' \<in> set protos then ''regexp''
      else if ''Error'' \<in> set protos then ''error''
      else toLowerCase tag)"
  by (simp add: getRealType_def slice_def)

lemma getRealType_new_Number: "getRealType (new_Number n) = ''number''"
  by (simp add: getRealType_VObject new_Number_def)

lemma lower_String: "toLowerCase ''String'' = ''string''"
  by code_simp

lemma getRealType_new_String: "getRealType (new_String s) = ''string''"
  by (simp add: getRealType_VObject new_String_def lower_String)

lemma lower_Boolean: "toLowerCase ''Boolean'' = ''boolean''"
  by code_simp

lemma getRealType_new_Boolean: "getRealType (new_Boolean b) = ''boolean''"
  by (simp add: getRealType_VObject new_Boolean_def lower_Boolean)

lemma typed_array_tags:
  "map toLowerCase typed_array_names =
     [''int8array'', ''uint8array'', ''int16array'', ''uint16array'', ''int32array'',
      ''uint32array'', ''uint8clampedarray'']"
  by code_simp

lemma getRealType_typed_arrays:
  "map (\<lambda>name. getRealType (new_TypedArray name elements)) typed_array_names
     = map toLowerCase typed_array_names"
  by (simp add: typed_array_names_def new_TypedArray_def getRealType_VObject)

lemma allItemsHaveTheSameType_card:
  "allItemsHaveTheSameType arr \<longleftrightarrow> card (getType ` set arr) = 1"
  by (simp add: allItemsHaveTheSameType_def Set_size_new_Set)


section \<open>The claims\<close>

subsection \<open>allItemsHaveTheSameType\<close>

text \<open>
  The source's test \<^verbatim>\<open>Values like a number\<close> expects
  \<^verbatim>\<open>allItemsHaveTheSameType([123, 123 / 'a', 1 / 0])\<close> to be true: the function compares
  the \<^verbatim>\<open>typeof\<close> tags (\<^verbatim>\<open>getType\<close>), under which a number, \<^verbatim>\<open>NaN\<close> and \<^verbatim>\<open>Infinity\<close>
  are all \<^verbatim>\<open>number\<close>, while \<^verbatim>\<open>getRealType\<close> gives them three tags. So the function is
  not the test "the set of \<^verbatim>\<open>getRealType\<close> tags has at most one member" of claim C1.
\<close>

theorem allItemsHaveTheSameType_not_real_types:
  "\<not> (allItemsHaveTheSameType [VNumber (Finite 123), VNumber NaN, VNumber PosInfinity]
      \<longleftrightarrow> card (getRealType ` set [VNumber (Finite 123), VNumber NaN, VNumber PosInfinity]) \<le> 1)"
  by (simp add: allItemsHaveTheSameType_card getType_def getRealType_VNumber)

text \<open>
  Claim C1, as amended: for every non-empty finite sequence of values,
  \<^verbatim>\<open>allItemsHaveTheSameType\<close> returns true if and only if the set of coarse tags obtained
  by applying \<^verbatim>\<open>getType\<close> (\<^verbatim>\<open>typeof\<close>) to every element has cardinality at most 1.
\<close>

theorem allItemsHaveTheSameType_iff:
  "arr \<noteq> [] \<Longrightarrow> allItemsHaveTheSameType arr \<longleftrightarrow> card (getType ` set arr) \<le> 1"
proof -
  assume "arr \<noteq> []"
  then have "card (getType ` set arr) \<noteq> 0" by simp
  then show ?thesis unfolding allItemsHaveTheSameType_card by linarith
qed

text \<open>
  The amended claim on the source's test \<^verbatim>\<open>All values are strings but wait\<close>,
  \<^verbatim>\<open>['11', new String('12'), '13']\<close>: two coarse tags, and the answer is false.
\<close>

theorem allItemsHaveTheSameType_iff_witness:
  "[VString ''11'', new_String ''12'', VString ''13''] \<noteq> [] \<and>
   \<not> allItemsHaveTheSameType [VString ''11'', new_String ''12'', VString ''13''] \<and>
   \<not> card (getType ` set [VString ''11'', new_String ''12'', VString ''13'']) \<le> 1"
proof -
  have ne: "[VString ''11'', new_String ''12'', VString ''13''] \<noteq> []" by simp
  have "\<not> card (getType ` set [VString ''11'', new_String ''12'', VString ''13'']) \<le> 1"
    by (simp add: getType_def new_String_def card_insert_if)
  with allItemsHaveTheSameType_iff [OF ne] ne show ?thesis by simp
qed

text \<open>
  Claim C2: \<^verbatim>\<open>allItemsHaveTheSameType([])\<close> returns true, and
  \<^verbatim>\<open>allItemsHaveTheSameType([x])\<close> returns true for every value \<^verbatim>\<open>x\<close>. The source compares
  the size of the set of tags with 1, so on the empty array, whose set of tags has size 0,
  it returns false; on a single element it returns true.
\<close>

theorem allItemsHaveTheSameType_empty_single:
  "allItemsHaveTheSameType [] = False \<and> allItemsHaveTheSameType [x] = True"
  by (simp add: allItemsHaveTheSameType_def Set_size_new_Set)

subsection \<open>getRealType\<close>

text \<open>
  A boxed string reaches the last rule of \<^verbatim>\<open>getRealType\<close>, where
  \<^verbatim>\<open>Object.prototype.toString\<close> gives \<^verbatim>\<open>[object String]\<close>, whose slice in lower case is
  \<^verbatim>\<open>string\<close>: the tag of a primitive string, against claim C3.
\<close>

theorem boxed_string_is_string:
  "\<not> (getRealType (new_Number (Finite 12)) = ''number''
      \<and> getRealType (new_String ''12'') \<noteq> ''string'')"
  by (simp add: getRealType_new_String)

text \<open>
  Claim C3, as amended: \<^verbatim>\<open>getRealType\<close> of a boxed number object returns \<^verbatim>\<open>number\<close>
  (by the \<^verbatim>\<open>instanceof Number\<close> rule, whatever number it wraps), and \<^verbatim>\<open>getRealType\<close> of a
  boxed string or boolean object returns \<^verbatim>\<open>string\<close> or \<^verbatim>\<open>boolean\<close>, the tag of the
  primitive it wraps (by the last rule, the runtime tag in lower case).
\<close>

theorem getRealType_boxed:
  "getRealType (new_Number n) = ''number''
   \<and> getRealType (new_String s) = ''string''
   \<and> getRealType (new_String s) = getRealType (VString s)
   \<and> getRealType (new_Boolean b) = ''boolean''"
  by (simp add: getRealType_new_Number getRealType_new_String getRealType_new_Boolean)
    (simp add: getRealType_def)

text \<open>
  Claim C4: for every value whose \<^verbatim>\<open>typeof\<close> tag is \<^verbatim>\<open>number\<close>, \<^verbatim>\<open>getRealType\<close> returns
  \<^verbatim>\<open>NaN\<close> on the not-a-number value, \<^verbatim>\<open>Infinity\<close> on positive and on negative infinity,
  and \<^verbatim>\<open>number\<close> on every other number; the three tags are pairwise distinct.
\<close>

theorem getRealType_number:
  assumes "getType v = ''number''"
  shows "getRealType v =
     (if v = VNumber NaN then ''NaN''
      else if v = VNumber PosInfinity \<or> v = VNumber NegInfinity then ''Infinity''
      else ''number'')
    \<and> distinct [''NaN'', ''Infinity'', ''number'']"
proof -
  from assms obtain n where "v = VNumber n"
    by (auto simp: getType_def typeof_number_iff)
  then show ?thesis by (simp add: getRealType_VNumber)
qed

theorem getRealType_number_witness:
  "getType (VNumber NegInfinity) = ''number''
   \<and> getRealType (VNumber NegInfinity) = ''Infinity''
   \<and> getRealType (VNumber PosInfinity) = ''Infinity''
   \<and> getRealType (VNumber NaN) = ''NaN''
   \<and> getRealType (VNumber (Finite (- 5 / 2))) = ''number''"
proof -
  have h: "getType (VNumber n) = ''number''" for n by (simp add: getType_def)
  show ?thesis
    using getRealType_number [OF h [of NegInfinity]] getRealType_number [OF h [of PosInfinity]]
      getRealType_number [OF h [of NaN]] getRealType_number [OF h [of "Finite (- 5 / 2)"]]
      h [of NegInfinity]
    by simp
qed

text \<open>
  Claim C9: \<^verbatim>\<open>getRealType\<close> returns \<^verbatim>\<open>boolean\<close> on \<^verbatim>\<open>true\<close>, \<^verbatim>\<open>number\<close> on \<^verbatim>\<open>123\<close>,
  \<^verbatim>\<open>string\<close> on \<^verbatim>\<open>"whoo"\<close>, \<^verbatim>\<open>array\<close> on \<^verbatim>\<open>[]\<close>, \<^verbatim>\<open>object\<close> on \<^verbatim>\<open>{}\<close>, \<^verbatim>\<open>undefined\<close> on
  \<^verbatim>\<open>undefined\<close> and \<^verbatim>\<open>null\<close> on \<^verbatim>\<open>null\<close>.
\<close>

theorem getRealType_examples:
  "getRealType (VBoolean True) = ''boolean'' \<and>
   getRealType (VNumber (Finite 123)) = ''number'' \<and>
   getRealType (VString ''whoo'') = ''string'' \<and>
   getRealType (array_literal []) = ''array'' \<and>
   getRealType object_literal = ''object'' \<and>
   getRealType VUndefined = ''undefined'' \<and>
   getRealType VNull = ''null''"
  by code_simp

text \<open>
  Claim C10: each of the seven typed-array views \<^verbatim>\<open>Int8Array\<close>, \<^verbatim>\<open>Uint8Array\<close>,
  \<^verbatim>\<open>Int16Array\<close>, \<^verbatim>\<open>Uint16Array\<close>, \<^verbatim>\<open>Int32Array\<close>, \<^verbatim>\<open>Uint32Array\<close> and
  \<^verbatim>\<open>Uint8ClampedArray\<close> gets from \<^verbatim>\<open>getRealType\<close> a tag of its own, which is what the
  last rule computes (the runtime tag, sliced and in lower case); the seven tags are
  pairwise distinct and none is \<^verbatim>\<open>array\<close>, so that \<^verbatim>\<open>everyItemHasAUniqueRealType\<close> holds
  of the seven views, as the source's test \<^verbatim>\<open>All arrays have unique types\<close> expects.
\<close>

theorem getRealType_typed_array_views:
  "map (\<lambda>name. getRealType (new_TypedArray name elements)) typed_array_names =
     [''int8array'', ''uint8array'', ''int16array'', ''uint16array'', ''int32array'',
      ''uint32array'', ''uint8clampedarray'']
   \<and> map (\<lambda>name. getRealType (new_TypedArray name elements)) typed_array_names =
     map (\<lambda>name. toLowerCase
            (slice (Object_prototype_toString (new_TypedArray name elements)) 8 (- 1)))
       typed_array_names
   \<and> distinct (''array'' #
        map (\<lambda>name. getRealType (new_TypedArray name elements)) typed_array_names)
   \<and> everyItemHasAUniqueRealType
        (map (\<lambda>name. new_TypedArray name elements) typed_array_names)"
proof -
  let ?tags = "map (\<lambda>name. getRealType (new_TypedArray name elements)) typed_array_names"
  have t: "?tags = [''int8array'', ''uint8array'', ''int16array'', ''uint16array'',
      ''int32array'', ''uint32array'', ''uint8clampedarray'']"
    by (simp only: getRealType_typed_arrays typed_array_tags)
  have f: "toLowerCase (slice (Object_prototype_toString (new_TypedArray name elements)) 8 (- 1))
      = toLowerCase name" for name
    by (simp only: new_TypedArray_def Object_prototype_toString.simps slice_toString)
  have d: "distinct (''array'' # ?tags)"
    unfolding t by simp
  have "everyItemHasAUniqueRealType (map (\<lambda>name. new_TypedArray name elements) typed_array_names)
      \<longleftrightarrow> card (set ?tags) = length ?tags"
    by (simp add: everyItemHasAUniqueRealType_def Set_size_new_Set comp_def)
  with d have u:
    "everyItemHasAUniqueRealType (map (\<lambda>name. new_TypedArray name elements) typed_array_names)"
    by (simp only: distinct.simps distinct_card)
  from t f d u show ?thesis
    by (simp only: getRealType_typed_arrays)
qed

subsection \<open>everyItemHasAUniqueRealType\<close>

text \<open>
  Claim C8: for every finite sequence of values, \<^verbatim>\<open>everyItemHasAUniqueRealType\<close> returns
  true if and only if the number of distinct tags that \<^verbatim>\<open>getRealType\<close> gives its elements
  equals its length, that is, no two elements share a tag; on the empty sequence it
  returns true.
\<close>

theorem everyItemHasAUniqueRealType_iff:
  "(everyItemHasAUniqueRealType arr \<longleftrightarrow> card (getRealType ` set arr) = length arr)
   \<and> (everyItemHasAUniqueRealType arr \<longleftrightarrow> distinct (map getRealType arr))
   \<and> everyItemHasAUniqueRealType []"
proof -
  have a: "everyItemHasAUniqueRealType ys \<longleftrightarrow>
      card (set (map getRealType ys)) = length (map getRealType ys)" for ys
    by (simp add: everyItemHasAUniqueRealType_def Set_size_new_Set)
  then have "everyItemHasAUniqueRealType arr \<longleftrightarrow> distinct (map getRealType arr)"
    by (metis card_distinct distinct_card)
  with a [of arr] a [of "[]"] show ?thesis by simp
qed

subsection \<open>countRealTypes\<close>

text \<open>
  Claim C5: for every finite input sequence, in the output of \<^verbatim>\<open>countRealTypes\<close> the
  counts sum to the length of the input, no tag occurs in more than one entry, the tag
  of every input element occurs in exactly one entry, and every count is positive (it
  is the number of input elements with the entry's tag).
\<close>

theorem countRealTypes_entries:
  "sum_list (map snd (countRealTypes arr)) = length arr
   \<and> distinct (map fst (countRealTypes arr))
   \<and> (\<forall>x \<in> set arr.
        length (filter (\<lambda>e. fst e = getRealType x) (countRealTypes arr)) = 1)
   \<and> (\<forall>e \<in> set (countRealTypes arr).
        0 < snd e \<and> snd e = count_list (map getRealType arr) (fst e))"
proof -
  have "length (filter (\<lambda>e. fst e = getRealType x) (countRealTypes arr)) = 1"
    if "x \<in> set arr" for x
  proof -
    from that have "getRealType x \<in> set (map fst (countRealTypes arr))"
      by (simp only: keys_countRealTypes) simp
    then show ?thesis
      using distinct_countRealTypes by (simp add: filter_key_length)
  qed
  moreover have "0 < snd e \<and> snd e = count_list (map getRealType arr) (fst e)"
    if "e \<in> set (countRealTypes arr)" for e
  proof -
    from entry_countRealTypes(1) [OF that]
    have "count_list (map getRealType arr) (fst e) \<noteq> 0"
      by (simp add: count_list_0_iff)
    with entry_countRealTypes(2) [OF that] show ?thesis by simp
  qed
  ultimately show ?thesis
    using sum_list_countRealTypes distinct_countRealTypes by blast
qed

theorem countRealTypes_entries_witness:
  "VNull \<in> set count_fixture
   \<and> length (filter (\<lambda>e. fst e = getRealType VNull) (countRealTypes count_fixture)) = 1
   \<and> (''boolean'', 3) \<in> set (countRealTypes count_fixture)
   \<and> 0 < snd (''boolean'', 3 :: nat)
   \<and> sum_list (map snd (countRealTypes count_fixture)) = 5"
proof -
  have x: "VNull \<in> set count_fixture"
    by (simp add: count_fixture_def)
  have e: "(''boolean'', 3) \<in> set (countRealTypes count_fixture)"
    by (simp add: countRealTypes_fixture count_expected_def)
  have n: "length count_fixture = 5"
    by (simp add: count_fixture_def)
  from countRealTypes_entries [of count_fixture] x e n show ?thesis
    by (metis snd_conv)
qed

text \<open>
  Claim C6: for every finite input sequence, the entries that \<^verbatim>\<open>countRealTypes\<close> returns
  are sorted ascending by their tag under the lexicographic order of strings by character
  code (the order \<open><\<close> of strings here), which is the order \<^verbatim>\<open>compareFn\<close> decides: it
  answers \<open>- 1\<close> on every entry and any later one.
\<close>

theorem countRealTypes_sorted:
  "sorted_wrt (<) (map fst (countRealTypes arr))
   \<and> sorted_wrt (\<lambda>a b. compareFn a b = - 1) (countRealTypes arr)"
proof -
  have "compareFn a b = - 1 \<longleftrightarrow> fst a < fst b" for a b
    by (auto simp: compareFn_def string_less_iff)
  then have "sorted_wrt (\<lambda>a b. compareFn a b = - 1) (countRealTypes arr)
      \<longleftrightarrow> sorted_wrt (<) (map fst (countRealTypes arr))"
    by (simp add: sorted_wrt_map)
  then show ?thesis
    using strict_sorted_countRealTypes by simp
qed

text \<open>
  Claim C7: \<^verbatim>\<open>countRealTypes\<close> returns the same output on a sequence and on every
  permutation of it; on \<^verbatim>\<open>[true, null, !null, !!null, {}]\<close> it returns
  \<^verbatim>\<open>[['boolean', 3], ['null', 1], ['object', 1]]\<close>, and so it does on every reordering
  of that input.
\<close>

theorem countRealTypes_permutation:
  "(mset ys = mset xs \<longrightarrow> countRealTypes ys = countRealTypes xs)
   \<and> countRealTypes count_fixture = count_expected
   \<and> (mset zs = mset count_fixture \<longrightarrow> countRealTypes zs = count_expected)"
  using countRealTypes_mset countRealTypes_fixture by metis

theorem countRealTypes_permutation_witness:
  "mset count_fixture_reordered = mset count_fixture
   \<and> countRealTypes count_fixture_reordered = [(''boolean'', 3), (''null'', 1), (''object'', 1)]"
proof -
  have p: "mset count_fixture_reordered = mset count_fixture"
    by (simp add: count_fixture_reordered_def count_fixture_def logical_not_def)
  with countRealTypes_permutation [of count_fixture_reordered count_fixture count_fixture_reordered]
  show ?thesis by (simp add: count_expected_def)
qed

end
